theory Spec2Isabelle
  imports Main
begin

section \<open>Data model (app/db/models.py)\<close>

text \<open>
  The tables of \<^verbatim>\<open>app/db/models.py\<close> as records, the two enums as datatypes.
  Every model class has an integer primary key \<^verbatim>\<open>id\<close>; since \<^verbatim>\<open>Transaction\<close> also has the
  columns \<^verbatim>\<open>item_id\<close> and \<^verbatim>\<open>user_id\<close>, the primary keys are written \<open>u_id\<close>, \<open>c_id\<close>,
  \<open>i_id\<close>, \<open>t_id\<close> and \<open>l_id\<close> here. \<^verbatim>\<open>Category.name\<close> is \<open>cat_name\<close> and \<^verbatim>\<open>AdminLog.action\<close> is
  \<open>log_action\<close>; every other column keeps its name. The column \<^verbatim>\<open>created_at\<close> (wall-clock
  time of the insert) is not a field: a table is the list of its rows in the order of
  their insertion, and that order stands for the order of \<^verbatim>\<open>created_at\<close>.
\<close>

datatype ItemStatus = AVAILABLE | TAKEN | LOST | MAINTENANCE

datatype TransactionAction = TAKE | RETURN

record user =
  u_id :: int
  telegram_id :: int
  username :: "string option"
  first_name :: "string option"
  last_name :: "string option"
  is_admin :: bool

record category =
  c_id :: int
  cat_name :: string
  description :: "string option"
  is_active :: bool

record item =
  i_id :: int
  category_id :: int
  name :: string
  inventory_code :: "string option"
  status :: ItemStatus
  current_holder_id :: "int option"

record transaction =
  t_id :: int
  item_id :: int
  user_id :: int
  action :: TransactionAction
  photo_file_id :: string
  photo_url :: "string option"
  comment :: "string option"

record admin_log =
  l_id :: int
  admin_id :: "int option"
  log_action :: string
  details :: "string option"

text \<open>
  The store a session works on: the five tables. \<open>foreign_keys\<close> records whether the
  backend selected by \<^verbatim>\<open>DB_URL\<close> enforces the declared foreign keys; the default
  \<^verbatim>\<open>sqlite+aiosqlite\<close> engine, which \<^verbatim>\<open>app/db/session.py\<close> opens without any pragma, does not.
\<close>

record db =
  users :: "user list"
  categories :: "category list"
  items :: "item list"
  transactions :: "transaction list"
  admin_logs :: "admin_log list"
  foreign_keys :: bool

text \<open>
  Exceptions as values. \<^verbatim>\<open>ValueError\<close> carries the message the services raise it with;
  \<^verbatim>\<open>IntegrityError\<close> is what a flush raises when an insert violates a constraint declared
  in the models, and carries the name of the constraint.
\<close>

datatype error =
    ValueError string
  | IntegrityError string
  | MultipleResultsFound

definition ItemStatus_value :: "ItemStatus \<Rightarrow> string" where
  "ItemStatus_value s =
     (case s of AVAILABLE \<Rightarrow> ''available'' | TAKEN \<Rightarrow> ''taken''
              | LOST \<Rightarrow> ''lost'' | MAINTENANCE \<Rightarrow> ''maintenance'')"

section \<open>Primary keys and string formatting\<close>

text \<open>An autoincrement primary key: one more than the largest key of the table.\<close>

definition next_id :: "int list \<Rightarrow> int" where
  "next_id ks = fold max ks 0 + 1"

text \<open>\<^verbatim>\<open>str(n)\<close> for a Python integer, as the f-strings of the audit details use it.\<close>

fun str_nat :: "nat \<Rightarrow> string" where
  "str_nat n =
     (if n < 10 then [char_of (48 + n)]
      else str_nat (n div 10) @ [char_of (48 + n mod 10)])"

definition str_int :: "int \<Rightarrow> string" where
  "str_int i = (if i < 0 then CHR ''-'' # str_nat (nat (- i)) else str_nat (nat i))"

section \<open>Repositories (app/db/repositories.py)\<close>

text \<open>\<^verbatim>\<open>ItemRepository.get_by_id\<close>: \<^verbatim>\<open>session.get(models.Item, item_id)\<close>.\<close>

definition get_by_id :: "db \<Rightarrow> int \<Rightarrow> item option" where
  "get_by_id d k = find (\<lambda>it. i_id it = k) (items d)"

text \<open>
  Assigning to the attributes of the object that \<^verbatim>\<open>session.get\<close> returned changes the row
  with that primary key, and no other row.
\<close>

definition update_item :: "int \<Rightarrow> (item \<Rightarrow> item) \<Rightarrow> db \<Rightarrow> db" where
  "update_item k f d = d\<lparr>items := map (\<lambda>it. if i_id it = k then f it else it) (items d)\<rparr>"

text \<open>\<^verbatim>\<open>TransactionRepository.add_transaction\<close>: the new row and the store holding it.\<close>

definition add_transaction ::
  "db \<Rightarrow> int \<Rightarrow> int \<Rightarrow> TransactionAction \<Rightarrow> string \<Rightarrow> string option \<Rightarrow> transaction \<times> db" where
  "add_transaction d iid uid act photo cmt =
     (let tx = \<lparr>t_id = next_id (map t_id (transactions d)), item_id = iid, user_id = uid,
                action = act, photo_file_id = photo, photo_url = None, comment = cmt\<rparr>
      in (tx, d\<lparr>transactions := transactions d @ [tx]\<rparr>))"

text \<open>\<^verbatim>\<open>AdminLogRepository.log\<close>.\<close>

definition log :: "db \<Rightarrow> int option \<Rightarrow> string \<Rightarrow> string option \<Rightarrow> admin_log \<times> db" where
  "log d aid act det =
     (let entry = \<lparr>l_id = next_id (map l_id (admin_logs d)), admin_id = aid,
                   log_action = act, details = det\<rparr>
      in (entry, d\<lparr>admin_logs := admin_logs d @ [entry]\<rparr>))"


section \<open>InventoryService (app/core/inventory_service.py)\<close>

text \<open>
  Each service method returns the store it leaves behind and either the exception it
  raised or its result. The \<^verbatim>\<open>user\<close> argument is a row of the session, as \<^verbatim>\<open>ensure_user\<close>
  returns it; the services read its \<^verbatim>\<open>id\<close> only. Both \<^verbatim>\<open>raise\<close> statements of \<^verbatim>\<open>take_item\<close> and the three of
  \<^verbatim>\<open>return_item\<close> come before the first assignment.
\<close>

definition take_item ::
  "db \<Rightarrow> int \<Rightarrow> user \<Rightarrow> string \<Rightarrow> string option \<Rightarrow> db \<times> (error + transaction)" where
  "take_item d iid usr photo cmt =
     (case get_by_id d iid of
        None \<Rightarrow> (d, Inl (ValueError ''Item not found''))
      | Some it \<Rightarrow>
          if status it \<noteq> AVAILABLE then (d, Inl (ValueError ''Item is not available''))
          else
            let d1 = update_item (i_id it)
                       (\<lambda>r. r\<lparr>status := TAKEN, current_holder_id := Some (u_id usr)\<rparr>) d;
                (tx, d2) = add_transaction d1 (i_id it) (u_id usr) TAKE photo cmt
            in (d2, Inr tx))"

definition return_item ::
  "db \<Rightarrow> int \<Rightarrow> user \<Rightarrow> string \<Rightarrow> string option \<Rightarrow> db \<times> (error + transaction)" where
  "return_item d iid usr photo cmt =
     (case get_by_id d iid of
        None \<Rightarrow> (d, Inl (ValueError ''Item not found''))
      | Some it \<Rightarrow>
          if status it \<noteq> TAKEN then (d, Inl (ValueError ''Item is not currently taken''))
          else if current_holder_id it \<noteq> Some (u_id usr)
            then (d, Inl (ValueError ''Item is held by another user''))
          else
            let d1 = update_item (i_id it)
                       (\<lambda>r. r\<lparr>status := AVAILABLE, current_holder_id := None\<rparr>) d;
                (tx, d2) = add_transaction d1 (i_id it) (u_id usr) RETURN photo cmt
            in (d2, Inr tx))"

text \<open>
  \<^verbatim>\<open>take_item\<close> in its two halves. It awaits the read of the item and checks the object
  it got (lines 79 to 83); the assignments to that object, the new transaction and the
  flush come after (lines 85 to 95). The flush writes the assigned status and holder to
  the row with the object's id, whatever the row holds by then: the update carries no
  condition on the status, and no lock is taken at the read. Each handler runs the method
  in a session of its own.
\<close>

definition take_item_check :: "db \<Rightarrow> int \<Rightarrow> error + item" where
  "take_item_check d iid =
     (case get_by_id d iid of
        None \<Rightarrow> Inl (ValueError ''Item not found'')
      | Some it \<Rightarrow>
          if status it \<noteq> AVAILABLE then Inl (ValueError ''Item is not available'')
          else Inr it)"

definition take_item_write ::
  "db \<Rightarrow> item \<Rightarrow> user \<Rightarrow> string \<Rightarrow> string option \<Rightarrow> db \<times> transaction" where
  "take_item_write d it usr photo cmt =
     (let d1 = update_item (i_id it)
                 (\<lambda>r. r\<lparr>status := TAKEN, current_holder_id := Some (u_id usr)\<rparr>) d;
          (tx, d2) = add_transaction d1 (i_id it) (u_id usr) TAKE photo cmt
      in (d2, tx))"

text \<open>
  \<^verbatim>\<open>ensure_user\<close> and \<^verbatim>\<open>UserRepository.get_or_create_from_telegram\<close>. \<^verbatim>\<open>str.lower\<close> is
  modelled on the ASCII letters (a Telegram username has no other letters),
  \<^verbatim>\<open>lstrip("@")\<close> drops every leading \<^verbatim>\<open>@\<close>, and \<^verbatim>\<open>username or ""\<close> turns a missing
  username into the empty string. \<^verbatim>\<open>scalar_one_or_none\<close> raises when the query has more
  than one row.
\<close>

definition lower_char :: "char \<Rightarrow> char" where
  "lower_char c =
     (let n = (of_char c :: nat) in if 65 \<le> n \<and> n \<le> 90 then char_of (n + 32) else c)"

definition lower :: "string \<Rightarrow> string" where
  "lower s = map lower_char s"

definition lstrip_at :: "string \<Rightarrow> string" where
  "lstrip_at s = dropWhile (\<lambda>c. c = CHR ''@'') s"

definition update_user :: "int \<Rightarrow> (user \<Rightarrow> user) \<Rightarrow> db \<Rightarrow> db" where
  "update_user k f d = d\<lparr>users := map (\<lambda>u. if u_id u = k then f u else u) (users d)\<rparr>"

definition get_or_create_from_telegram ::
  "db \<Rightarrow> int \<Rightarrow> string option \<Rightarrow> string option \<Rightarrow> string option \<Rightarrow> bool
     \<Rightarrow> db \<times> (error + user)" where
  "get_or_create_from_telegram d tg un fn ln make_admin =
     (case filter (\<lambda>u. telegram_id u = tg) (users d) of
        [] \<Rightarrow>
          let usr = \<lparr>u_id = next_id (map u_id (users d)), telegram_id = tg, username = un,
                     first_name = fn, last_name = ln, is_admin = make_admin\<rparr>
          in (d\<lparr>users := users d @ [usr]\<rparr>, Inr usr)
      | [usr] \<Rightarrow>
          let u1 = (if make_admin \<and> \<not> is_admin usr then usr\<lparr>is_admin := True\<rparr> else usr);
              u2 = u1\<lparr>username := un, first_name := fn, last_name := ln\<rparr>
          in (update_user (u_id usr) (\<lambda>_. u2) d, Inr u2)
      | _ \<Rightarrow> (d, Inl MultipleResultsFound))"

definition make_admin_flag :: "int \<Rightarrow> string option \<Rightarrow> int list \<Rightarrow> string list \<Rightarrow> bool" where
  "make_admin_flag tg un initial_admin_ids initial_admin_usernames =
     (let normalized_username = lower (lstrip_at (case un of None \<Rightarrow> [] | Some s \<Rightarrow> s))
      in tg \<in> set initial_admin_ids \<or>
         (if normalized_username \<noteq> [] then normalized_username \<in> set initial_admin_usernames
          else False))"

definition ensure_user ::
  "db \<Rightarrow> int \<Rightarrow> string option \<Rightarrow> string option \<Rightarrow> string option \<Rightarrow> int list \<Rightarrow> string list
     \<Rightarrow> db \<times> (error + user)" where
  "ensure_user d tg un fn ln initial_admin_ids initial_admin_usernames =
     get_or_create_from_telegram d tg un fn ln
       (make_admin_flag tg un initial_admin_ids initial_admin_usernames)"

section \<open>AdminService (app/core/admin_service.py)\<close>

text \<open>
  \<^verbatim>\<open>set_item_status\<close> raises nothing: it returns \<^verbatim>\<open>False\<close> for an unknown id, and otherwise
  assigns the status, clears the holder unless the new status is \<^verbatim>\<open>TAKEN\<close>, and logs.
\<close>

definition set_item_status :: "db \<Rightarrow> user \<Rightarrow> int \<Rightarrow> ItemStatus \<Rightarrow> db \<times> bool" where
  "set_item_status d admin iid st =
     (case get_by_id d iid of
        None \<Rightarrow> (d, False)
      | Some it \<Rightarrow>
          let d1 = update_item (i_id it) (\<lambda>r. r\<lparr>status := st\<rparr>) d;
              d2 = (if st \<noteq> TAKEN
                    then update_item (i_id it) (\<lambda>r. r\<lparr>current_holder_id := None\<rparr>) d1
                    else d1);
              (entry, d3) = log d2 (Some (u_id admin)) ''set_item_status''
                              (Some (''item_id='' @ str_int iid @ '',status='' @ ItemStatus_value st))
          in (d3, True))"

text \<open>
  Neither \<^verbatim>\<open>ItemRepository.create\<close> nor \<^verbatim>\<open>CategoryRepository.create\<close> nor the service methods
  calling them check anything: they build the object and add it to the session, add the
  log entry, and flush. What can fail is the flush, when the insert of the new row
  violates a constraint that the models declare: \<^verbatim>\<open>unique=True\<close> on \<^verbatim>\<open>Item.inventory_code\<close>
  (rows without a code never collide) and on \<^verbatim>\<open>Category.name\<close>, and the foreign key
  \<^verbatim>\<open>Item.category_id\<close>, which only a backend that enforces foreign keys checks. A flush
  that raises leaves the store as it was before the call: the caller abandons the session
  without committing, and the pending log entry goes with it. A new item gets the column
  default \<^verbatim>\<open>AVAILABLE\<close> and no holder, a new category the column default \<^verbatim>\<open>is_active = True\<close>.
\<close>

definition flush_item :: "db \<Rightarrow> item \<Rightarrow> error + db" where
  "flush_item d it =
     (if (case inventory_code it of None \<Rightarrow> False
          | Some c \<Rightarrow> Some c \<in> set (map inventory_code (items d)))
        then Inl (IntegrityError ''items.inventory_code'')
      else if foreign_keys d \<and> category_id it \<notin> set (map c_id (categories d))
        then Inl (IntegrityError ''items.category_id'')
      else Inr (d\<lparr>items := items d @ [it]\<rparr>))"

definition flush_category :: "db \<Rightarrow> category \<Rightarrow> error + db" where
  "flush_category d c =
     (if cat_name c \<in> set (map cat_name (categories d))
        then Inl (IntegrityError ''categories.name'')
      else Inr (d\<lparr>categories := categories d @ [c]\<rparr>))"

definition create_item ::
  "db \<Rightarrow> user \<Rightarrow> int \<Rightarrow> string \<Rightarrow> string option \<Rightarrow> db \<times> (error + item)" where
  "create_item d admin cid nm code =
     (let it = \<lparr>i_id = next_id (map i_id (items d)), category_id = cid, name = nm,
                inventory_code = code, status = AVAILABLE, current_holder_id = None\<rparr>;
          (entry, d1) = log d (Some (u_id admin)) ''create_item''
                          (Some (''category_id='' @ str_int cid @ '',name='' @ nm))
      in case flush_item d1 it of
           Inl e \<Rightarrow> (d, Inl e)
         | Inr d2 \<Rightarrow> (d2, Inr it))"

definition create_category ::
  "db \<Rightarrow> user \<Rightarrow> string \<Rightarrow> string option \<Rightarrow> db \<times> (error + category)" where
  "create_category d admin nm desc =
     (let c = \<lparr>c_id = next_id (map c_id (categories d)), cat_name = nm, description = desc,
               is_active = True\<rparr>;
          (entry, d1) = log d (Some (u_id admin)) ''create_category'' (Some (''name='' @ nm))
      in case flush_category d1 c of
           Inl e \<Rightarrow> (d, Inl e)
         | Inr d2 \<Rightarrow> (d2, Inr c))"

section \<open>Invariants and runs of operations\<close>











section \<open>A small store for concrete instances\<close>

abbreviation alice :: user where
  "alice \<equiv> \<lparr>u_id = 1, telegram_id = 1001, username = Some ''alice'', first_name = Some ''Alice'',
             last_name = None, is_admin = False\<rparr>"

abbreviation bob :: user where
  "bob \<equiv> \<lparr>u_id = 2, telegram_id = 1002, username = Some ''bob'', first_name = Some ''Bob'',
           last_name = None, is_admin = False\<rparr>"

abbreviation root :: user where
  "root \<equiv> \<lparr>u_id = 3, telegram_id = 1003, username = Some ''root'', first_name = None,
            last_name = None, is_admin = True\<rparr>"

abbreviation drill :: item where
  "drill \<equiv> \<lparr>i_id = 1, category_id = 1, name = ''Drill'', inventory_code = Some ''D-1'',
             status = AVAILABLE, current_holder_id = None\<rparr>"

abbreviation saw :: item where
  "saw \<equiv> \<lparr>i_id = 2, category_id = 1, name = ''Saw'', inventory_code = None,
           status = LOST, current_holder_id = None\<rparr>"

abbreviation ladder :: item where
  "ladder \<equiv> \<lparr>i_id = 3, category_id = 1, name = ''Ladder'', inventory_code = None,
              status = TAKEN, current_holder_id = Some 2\<rparr>"

abbreviation shop :: db where
  "shop \<equiv> \<lparr>users = [alice, bob, root],
            categories = [\<lparr>c_id = 1, cat_name = ''Tools'', description = None, is_active = True\<rparr>],
            items = [drill, saw, ladder],
            transactions = [\<lparr>t_id = 1, item_id = 3, user_id = 2, action = TAKE,
                             photo_file_id = ''photo-0'', photo_url = None, comment = None\<rparr>],
            admin_logs = [], foreign_keys = False\<rparr>"

section \<open>Basic facts about the repositories\<close>

lemma get_by_id_key: "get_by_id d k = Some it \<Longrightarrow> i_id it = k"
  by (auto simp: get_by_id_def find_Some_iff)

lemma find_map_key:
  "(\<And>x. key (g x) = key x) \<Longrightarrow>
     find (\<lambda>x. key x = k) (map g xs) = map_option g (find (\<lambda>x. key x = k) xs)"
  by (induction xs) auto

lemma get_by_id_items_map:
  assumes "items d' = map (\<lambda>r. if i_id r = k then f r else r) (items d)"
    and "\<And>r. i_id (f r) = i_id r"
  shows "get_by_id d' j = map_option (\<lambda>r. if i_id r = k then f r else r) (get_by_id d j)"
proof -
  have "\<And>r. i_id (if i_id r = k then f r else r) = i_id r"
    using assms(2) by simp
  then show ?thesis
    unfolding get_by_id_def assms(1) by (rule find_map_key)
qed

text \<open>The outcomes of \<open>take_item\<close>, one lemma for each path through the method.\<close>

lemma take_item_missing:
  "get_by_id d iid = None \<Longrightarrow>
     take_item d iid usr photo cmt = (d, Inl (ValueError ''Item not found''))"
  by (simp add: take_item_def)

lemma take_item_unavailable:
  "get_by_id d iid = Some it \<Longrightarrow> status it \<noteq> AVAILABLE \<Longrightarrow>
     take_item d iid usr photo cmt = (d, Inl (ValueError ''Item is not available''))"
  by (simp add: take_item_def)

lemma take_item_ok:
  assumes "get_by_id d iid = Some it" and "status it = AVAILABLE"
  shows "take_item d iid usr photo cmt =
     (d\<lparr>items := map (\<lambda>r. if i_id r = iid
                             then r\<lparr>status := TAKEN, current_holder_id := Some (u_id usr)\<rparr>
                             else r) (items d),
        transactions := transactions d @
          [\<lparr>t_id = next_id (map t_id (transactions d)), item_id = iid, user_id = u_id usr,
            action = TAKE, photo_file_id = photo, photo_url = None, comment = cmt\<rparr>]\<rparr>,
      Inr \<lparr>t_id = next_id (map t_id (transactions d)), item_id = iid, user_id = u_id usr,
           action = TAKE, photo_file_id = photo, photo_url = None, comment = cmt\<rparr>)"
  using assms get_by_id_key [OF assms(1)]
  by (simp add: take_item_def add_transaction_def Let_def update_item_def)

text \<open>Run without interruption, the two halves of \<open>take_item\<close> are \<open>take_item\<close>.\<close>

lemma take_item_split:
  "take_item d iid usr photo cmt =
     (case take_item_check d iid of
        Inl e \<Rightarrow> (d, Inl e)
      | Inr it \<Rightarrow> (case take_item_write d it usr photo cmt of (d', tx) \<Rightarrow> (d', Inr tx)))"
  by (simp add: take_item_def take_item_check_def take_item_write_def Let_def
      split: option.split prod.split)

text \<open>The outcomes of \<open>return_item\<close>.\<close>

lemma return_item_missing:
  "get_by_id d iid = None \<Longrightarrow>
     return_item d iid usr photo cmt = (d, Inl (ValueError ''Item not found''))"
  by (simp add: return_item_def)

lemma return_item_not_taken:
  "get_by_id d iid = Some it \<Longrightarrow> status it \<noteq> TAKEN \<Longrightarrow>
     return_item d iid usr photo cmt = (d, Inl (ValueError ''Item is not currently taken''))"
  by (simp add: return_item_def)

lemma return_item_other_holder:
  "get_by_id d iid = Some it \<Longrightarrow> status it = TAKEN \<Longrightarrow>
   current_holder_id it \<noteq> Some (u_id usr) \<Longrightarrow>
     return_item d iid usr photo cmt = (d, Inl (ValueError ''Item is held by another user''))"
  by (simp add: return_item_def)

lemma return_item_ok:
  assumes "get_by_id d iid = Some it" and "status it = TAKEN"
    and "current_holder_id it = Some (u_id usr)"
  shows "return_item d iid usr photo cmt =
     (d\<lparr>items := map (\<lambda>r. if i_id r = iid
                             then r\<lparr>status := AVAILABLE, current_holder_id := None\<rparr>
                             else r) (items d),
        transactions := transactions d @
          [\<lparr>t_id = next_id (map t_id (transactions d)), item_id = iid, user_id = u_id usr,
            action = RETURN, photo_file_id = photo, photo_url = None, comment = cmt\<rparr>]\<rparr>,
      Inr \<lparr>t_id = next_id (map t_id (transactions d)), item_id = iid, user_id = u_id usr,
           action = RETURN, photo_file_id = photo, photo_url = None, comment = cmt\<rparr>)"
  using assms get_by_id_key [OF assms(1)]
  by (simp add: return_item_def add_transaction_def Let_def update_item_def)


lemma set_item_status_ok:
  assumes "get_by_id d iid = Some it"
  shows "set_item_status d admin iid st =
     (d\<lparr>items := map (\<lambda>r. if i_id r = iid
                             then (if st \<noteq> TAKEN
                                   then r\<lparr>status := st, current_holder_id := None\<rparr>
                                   else r\<lparr>status := st\<rparr>)
                             else r) (items d),
        admin_logs := admin_logs d @
          [\<lparr>l_id = next_id (map l_id (admin_logs d)), admin_id = Some (u_id admin),
            log_action = ''set_item_status'',
            details = Some (''item_id='' @ str_int iid @ '',status='' @ ItemStatus_value st)\<rparr>]\<rparr>,
      True)"
  using assms get_by_id_key [OF assms]
  by (simp add: set_item_status_def log_def Let_def update_item_def comp_def if_distrib cong: if_cong)
















section \<open>Check-out\<close>

text \<open>
  C2. For an item that exists and whose status is \<^verbatim>\<open>AVAILABLE\<close>, \<open>take_item\<close> succeeds:
  the item becomes \<^verbatim>\<open>TAKEN\<close> with the requesting user as holder, exactly one transaction
  is appended, of action \<^verbatim>\<open>TAKE\<close>, for this item and user, with the given photo and
  comment, and that transaction is the result.
\<close>

theorem take_item_available:
  assumes "get_by_id d iid = Some it" and "status it = AVAILABLE"
  shows "\<exists>tx d'. take_item d iid usr photo cmt = (d', Inr tx)
           \<and> get_by_id d' iid
               = Some (it\<lparr>status := TAKEN, current_holder_id := Some (u_id usr)\<rparr>)
           \<and> transactions d' = transactions d @ [tx]
           \<and> item_id tx = iid \<and> user_id tx = u_id usr \<and> action tx = TAKE
           \<and> photo_file_id tx = photo \<and> comment tx = cmt"
proof -
  let ?f = "\<lambda>r. r\<lparr>status := TAKEN, current_holder_id := Some (u_id usr)\<rparr>"
  let ?tx = "\<lparr>t_id = next_id (map t_id (transactions d)), item_id = iid, user_id = u_id usr,
              action = TAKE, photo_file_id = photo, photo_url = None, comment = cmt\<rparr>"
  let ?d' = "d\<lparr>items := map (\<lambda>r. if i_id r = iid then ?f r else r) (items d),
               transactions := transactions d @ [?tx]\<rparr>"
  have key: "i_id it = iid"
    using assms(1) by (rule get_by_id_key)
  have res: "take_item d iid usr photo cmt = (?d', Inr ?tx)"
    using assms by (rule take_item_ok)
  have "get_by_id ?d' iid = map_option (\<lambda>r. if i_id r = iid then ?f r else r) (get_by_id d iid)"
    by (rule get_by_id_items_map) simp_all
  then have "get_by_id ?d' iid = Some (?f it)"
    using assms(1) key by simp
  with res show ?thesis by simp
qed

theorem take_item_available_witness:
  "get_by_id shop 1 = Some drill \<and> status drill = AVAILABLE \<and>
   (\<exists>tx d'. take_item shop 1 alice ''photo-1'' (Some ''for the fence'') = (d', Inr tx)
      \<and> get_by_id d' 1 = Some (drill\<lparr>status := TAKEN, current_holder_id := Some 1\<rparr>)
      \<and> transactions d' = transactions shop @ [tx]
      \<and> item_id tx = 1 \<and> user_id tx = 1 \<and> action tx = TAKE
      \<and> photo_file_id tx = ''photo-1'' \<and> comment tx = Some ''for the fence'')"
proof -
  have h1: "get_by_id shop 1 = Some drill"
    by (simp add: get_by_id_def)
  have h2: "status drill = AVAILABLE"
    by simp
  show ?thesis
    using h1 take_item_available [OF h1 h2, of alice "''photo-1''" "Some ''for the fence''"]
    by simp
qed

text \<open>
  C3. \<open>take_item\<close> fails with the error \<^verbatim>\<open>ValueError("Item not found")\<close> (the spec's
  ItemNotFound) when the id is unknown, and with \<^verbatim>\<open>ValueError("Item is not available")\<close>
  (the spec's InvalidTransition) when the item exists with any status other than
  \<^verbatim>\<open>AVAILABLE\<close>; whenever it fails, the store it leaves is the store it was given, so the
  item's status, its holder and the transactions are unchanged.
\<close>

theorem take_item_failures:
  "(get_by_id d iid = None \<longrightarrow>
      take_item d iid usr photo cmt = (d, Inl (ValueError ''Item not found'')))
   \<and> (\<forall>it. get_by_id d iid = Some it \<and> status it \<in> {TAKEN, LOST, MAINTENANCE} \<longrightarrow>
      take_item d iid usr photo cmt = (d, Inl (ValueError ''Item is not available'')))
   \<and> (\<forall>e d'. take_item d iid usr photo cmt = (d', Inl e) \<longrightarrow> d' = d)
   \<and> ValueError ''Item not found'' \<noteq> ValueError ''Item is not available''"
proof (intro conjI allI impI)
  assume "get_by_id d iid = None"
  then show "take_item d iid usr photo cmt = (d, Inl (ValueError ''Item not found''))"
    by (rule take_item_missing)
next
  fix it
  assume "get_by_id d iid = Some it \<and> status it \<in> {TAKEN, LOST, MAINTENANCE}"
  then have "get_by_id d iid = Some it" and "status it \<noteq> AVAILABLE"
    by auto
  then show "take_item d iid usr photo cmt = (d, Inl (ValueError ''Item is not available''))"
    by (rule take_item_unavailable)
next
  fix e d'
  assume failed: "take_item d iid usr photo cmt = (d', Inl e)"
  show "d' = d"
  proof (cases "get_by_id d iid")
    case None
    with failed show ?thesis by (simp add: take_item_missing)
  next
    case (Some it)
    show ?thesis
    proof (cases "status it = AVAILABLE")
      case True
      with Some failed show ?thesis by (simp add: take_item_ok)
    next
      case False
      with Some failed show ?thesis by (simp add: take_item_unavailable)
    qed
  qed
qed simp_all

theorem take_item_failures_witness:
  "get_by_id shop 99 = None
   \<and> take_item shop 99 alice ''photo-1'' None = (shop, Inl (ValueError ''Item not found''))
   \<and> get_by_id shop 2 = Some saw \<and> status saw \<in> {TAKEN, LOST, MAINTENANCE}
   \<and> take_item shop 2 alice ''photo-1'' None = (shop, Inl (ValueError ''Item is not available''))
   \<and> get_by_id shop 3 = Some ladder \<and> status ladder \<in> {TAKEN, LOST, MAINTENANCE}
   \<and> take_item shop 3 alice ''photo-1'' None = (shop, Inl (ValueError ''Item is not available''))"
proof -
  have h1: "get_by_id shop 99 = None"
    by (simp add: get_by_id_def)
  have h2: "get_by_id shop 2 = Some saw \<and> status saw \<in> {TAKEN, LOST, MAINTENANCE}"
    by (simp add: get_by_id_def)
  have h3: "get_by_id shop 3 = Some ladder \<and> status ladder \<in> {TAKEN, LOST, MAINTENANCE}"
    by (simp add: get_by_id_def)
  note inst = take_item_failures [where usr = alice and photo = "''photo-1''" and cmt = None]
  have r1: "take_item shop 99 alice ''photo-1'' None
      = (shop, Inl (ValueError ''Item not found''))"
    using h1 inst [of shop 99, THEN conjunct1] by (rule rev_mp)
  have r2: "take_item shop 2 alice ''photo-1'' None
      = (shop, Inl (ValueError ''Item is not available''))"
    using h2 inst [of shop 2, THEN conjunct2, THEN conjunct1, THEN spec, of saw]
    by (rule rev_mp)
  have r3: "take_item shop 3 alice ''photo-1'' None
      = (shop, Inl (ValueError ''Item is not available''))"
    using h3 inst [of shop 3, THEN conjunct2, THEN conjunct1, THEN spec, of ladder]
    by (rule rev_mp)
  from h1 r1 h2 r2 h3 r3 show ?thesis
    by (simp only: simp_thms)
qed

section \<open>Check-in\<close>

text \<open>
  C4. \<open>return_item\<close> fails with \<^verbatim>\<open>ValueError("Item not found")\<close> (ItemNotFound) when the id
  is unknown, with \<^verbatim>\<open>ValueError("Item is not currently taken")\<close> (InvalidTransition) when
  the item's status is not \<^verbatim>\<open>TAKEN\<close>, and with \<^verbatim>\<open>ValueError("Item is held by another user")\<close>
  (NotHolder) when the item is taken and its holder is not the requesting user; the three
  errors are different values, and whenever \<open>return_item\<close> fails the store is unchanged.
\<close>

theorem return_item_failures:
  "(get_by_id d iid = None \<longrightarrow>
      return_item d iid usr photo cmt = (d, Inl (ValueError ''Item not found'')))
   \<and> (\<forall>it. get_by_id d iid = Some it \<and> status it \<noteq> TAKEN \<longrightarrow>
      return_item d iid usr photo cmt = (d, Inl (ValueError ''Item is not currently taken'')))
   \<and> (\<forall>it. get_by_id d iid = Some it \<and> status it = TAKEN
           \<and> current_holder_id it \<noteq> Some (u_id usr) \<longrightarrow>
      return_item d iid usr photo cmt = (d, Inl (ValueError ''Item is held by another user'')))
   \<and> (\<forall>e d'. return_item d iid usr photo cmt = (d', Inl e) \<longrightarrow> d' = d)
   \<and> ValueError ''Item not found'' \<noteq> ValueError ''Item is not currently taken''
   \<and> ValueError ''Item not found'' \<noteq> ValueError ''Item is held by another user''
   \<and> ValueError ''Item is not currently taken'' \<noteq> ValueError ''Item is held by another user''"
proof (intro conjI allI impI)
  assume "get_by_id d iid = None"
  then show "return_item d iid usr photo cmt = (d, Inl (ValueError ''Item not found''))"
    by (rule return_item_missing)
next
  fix it
  assume "get_by_id d iid = Some it \<and> status it \<noteq> TAKEN"
  then show "return_item d iid usr photo cmt
      = (d, Inl (ValueError ''Item is not currently taken''))"
    by (simp add: return_item_not_taken)
next
  fix it
  assume "get_by_id d iid = Some it \<and> status it = TAKEN
      \<and> current_holder_id it \<noteq> Some (u_id usr)"
  then show "return_item d iid usr photo cmt
      = (d, Inl (ValueError ''Item is held by another user''))"
    by (simp add: return_item_other_holder)
next
  fix e d'
  assume failed: "return_item d iid usr photo cmt = (d', Inl e)"
  show "d' = d"
  proof (cases "get_by_id d iid")
    case None
    with failed show ?thesis by (simp add: return_item_missing)
  next
    case (Some it)
    consider "status it \<noteq> TAKEN"
      | "status it = TAKEN" "current_holder_id it \<noteq> Some (u_id usr)"
      | "status it = TAKEN" "current_holder_id it = Some (u_id usr)"
      by blast
    then show ?thesis
    proof cases
      case 1
      with Some failed show ?thesis by (simp add: return_item_not_taken)
    next
      case 2
      with Some failed show ?thesis by (simp add: return_item_other_holder)
    next
      case 3
      with Some failed show ?thesis by (simp add: return_item_ok)
    qed
  qed
qed simp_all

theorem return_item_failures_witness:
  "get_by_id shop 99 = None
   \<and> return_item shop 99 alice ''photo-2'' None = (shop, Inl (ValueError ''Item not found''))
   \<and> get_by_id shop 1 = Some drill \<and> status drill \<noteq> TAKEN
   \<and> return_item shop 1 alice ''photo-2'' None
       = (shop, Inl (ValueError ''Item is not currently taken''))
   \<and> get_by_id shop 3 = Some ladder \<and> status ladder = TAKEN
   \<and> current_holder_id ladder \<noteq> Some (u_id alice)
   \<and> return_item shop 3 alice ''photo-2'' None
       = (shop, Inl (ValueError ''Item is held by another user''))"
proof -
  have h1: "get_by_id shop 99 = None"
    by (simp add: get_by_id_def)
  have h2: "get_by_id shop 1 = Some drill \<and> status drill \<noteq> TAKEN"
    by (simp add: get_by_id_def)
  have h3: "get_by_id shop 3 = Some ladder \<and> status ladder = TAKEN
      \<and> current_holder_id ladder \<noteq> Some (u_id alice)"
    by (simp add: get_by_id_def)
  note inst = return_item_failures [where usr = alice and photo = "''photo-2''" and cmt = None]
  have r1: "return_item shop 99 alice ''photo-2'' None
      = (shop, Inl (ValueError ''Item not found''))"
    using h1 inst [of shop 99, THEN conjunct1] by (rule rev_mp)
  have r2: "return_item shop 1 alice ''photo-2'' None
      = (shop, Inl (ValueError ''Item is not currently taken''))"
    using h2 inst [of shop 1, THEN conjunct2, THEN conjunct1, THEN spec, of drill]
    by (rule rev_mp)
  have r3: "return_item shop 3 alice ''photo-2'' None
      = (shop, Inl (ValueError ''Item is held by another user''))"
    using h3 inst [of shop 3, THEN conjunct2, THEN conjunct2, THEN conjunct1, THEN spec, of ladder]
    by (rule rev_mp)
  from h1 r1 h2 r2 h3 r3 show ?thesis
    by (simp only: simp_thms)
qed

text \<open>
  C5. On an item whose status is \<^verbatim>\<open>AVAILABLE\<close>, \<open>take_item\<close> followed by \<open>return_item\<close>
  by the same user both succeed; afterwards the item is \<^verbatim>\<open>AVAILABLE\<close> again with no holder,
  and the transactions are the old ones followed by exactly two new ones for this item,
  a \<^verbatim>\<open>TAKE\<close> and then a \<^verbatim>\<open>RETURN\<close>.
\<close>

theorem take_then_return:
  assumes "get_by_id d iid = Some it" and "status it = AVAILABLE"
  shows "\<exists>d1 t1 d2 t2.
           take_item d iid usr photo1 cmt1 = (d1, Inr t1)
           \<and> return_item d1 iid usr photo2 cmt2 = (d2, Inr t2)
           \<and> get_by_id d2 iid = Some (it\<lparr>status := AVAILABLE, current_holder_id := None\<rparr>)
           \<and> transactions d2 = transactions d @ [t1, t2]
           \<and> item_id t1 = iid \<and> action t1 = TAKE \<and> user_id t1 = u_id usr
           \<and> item_id t2 = iid \<and> action t2 = RETURN \<and> user_id t2 = u_id usr"
proof -
  obtain t1 d1 where
    out: "take_item d iid usr photo1 cmt1 = (d1, Inr t1)"
    and it1: "get_by_id d1 iid
        = Some (it\<lparr>status := TAKEN, current_holder_id := Some (u_id usr)\<rparr>)"
    and tx1: "transactions d1 = transactions d @ [t1]"
    and f1: "item_id t1 = iid" "action t1 = TAKE" "user_id t1 = u_id usr"
    using take_item_ok [OF assms, of usr photo1 cmt1] get_by_id_key [OF assms(1)]
      get_by_id_items_map [of _ iid
        "\<lambda>r. r\<lparr>status := TAKEN, current_holder_id := Some (u_id usr)\<rparr>" d iid] assms(1)
    by simp
  let ?it1 = "it\<lparr>status := TAKEN, current_holder_id := Some (u_id usr)\<rparr>"
  let ?g = "\<lambda>r. r\<lparr>status := AVAILABLE, current_holder_id := None\<rparr>"
  let ?t2 = "\<lparr>t_id = next_id (map t_id (transactions d1)), item_id = iid, user_id = u_id usr,
              action = RETURN, photo_file_id = photo2, photo_url = None, comment = cmt2\<rparr>"
  let ?d2 = "d1\<lparr>items := map (\<lambda>r. if i_id r = iid then ?g r else r) (items d1),
               transactions := transactions d1 @ [?t2]\<rparr>"
  have ret: "return_item d1 iid usr photo2 cmt2 = (?d2, Inr ?t2)"
    using it1 by (rule return_item_ok) simp_all
  have "get_by_id ?d2 iid = map_option (\<lambda>r. if i_id r = iid then ?g r else r) (get_by_id d1 iid)"
    by (rule get_by_id_items_map) simp_all
  then have it2: "get_by_id ?d2 iid = Some (?g ?it1)"
    using it1 get_by_id_key [OF assms(1)] by simp
  have "?g ?it1 = it\<lparr>status := AVAILABLE, current_holder_id := None\<rparr>"
    by simp
  with it2 have it2': "get_by_id ?d2 iid
      = Some (it\<lparr>status := AVAILABLE, current_holder_id := None\<rparr>)"
    by simp
  have tx2: "transactions ?d2 = transactions d @ [t1, ?t2]"
    using tx1 by simp
  show ?thesis
    using out ret it2' tx2 f1 by (intro exI [of _ d1] exI [of _ t1] exI [of _ ?d2] exI [of _ ?t2]) simp
qed

theorem take_then_return_witness:
  "get_by_id shop 1 = Some drill \<and> status drill = AVAILABLE \<and>
   (\<exists>d1 t1 d2 t2.
      take_item shop 1 alice ''photo-1'' None = (d1, Inr t1)
      \<and> return_item d1 1 alice ''photo-2'' None = (d2, Inr t2)
      \<and> get_by_id d2 1 = Some drill
      \<and> transactions d2 = transactions shop @ [t1, t2]
      \<and> item_id t1 = 1 \<and> action t1 = TAKE \<and> user_id t1 = 1
      \<and> item_id t2 = 1 \<and> action t2 = RETURN \<and> user_id t2 = 1)"
proof -
  have h1: "get_by_id shop 1 = Some drill"
    by (simp add: get_by_id_def)
  have h2: "status drill = AVAILABLE"
    by simp
  show ?thesis
    using h1 take_then_return [OF h1 h2, of alice "''photo-1''" None "''photo-2''" None]
    by simp
qed

section \<open>Forced status\<close>

text \<open>
  C6. For an existing item and a new status other than \<^verbatim>\<open>TAKEN\<close>, \<open>set_item_status\<close>
  returns \<^verbatim>\<open>True\<close>; the item gets the new status and no holder, while its id, name,
  inventory code and category stay as they were; no transaction is appended; and exactly
  one admin log entry is appended, whose \<open>admin_id\<close> is the acting administrator.
\<close>

theorem set_item_status_not_taken:
  assumes "get_by_id d iid = Some it" and "st \<noteq> TAKEN"
  shows "\<exists>d' entry. set_item_status d admin iid st = (d', True)
           \<and> get_by_id d' iid = Some (it\<lparr>status := st, current_holder_id := None\<rparr>)
           \<and> transactions d' = transactions d
           \<and> admin_logs d' = admin_logs d @ [entry]
           \<and> admin_id entry = Some (u_id admin)
           \<and> log_action entry = ''set_item_status''"
proof -
  let ?f = "\<lambda>r. r\<lparr>status := st, current_holder_id := None\<rparr>"
  let ?entry = "\<lparr>l_id = next_id (map l_id (admin_logs d)), admin_id = Some (u_id admin),
                 log_action = ''set_item_status'',
                 details = Some (''item_id='' @ str_int iid @ '',status='' @ ItemStatus_value st)\<rparr>"
  let ?d' = "d\<lparr>items := map (\<lambda>r. if i_id r = iid then ?f r else r) (items d),
               admin_logs := admin_logs d @ [?entry]\<rparr>"
  have res: "set_item_status d admin iid st = (?d', True)"
    using set_item_status_ok [OF assms(1), of admin st] assms(2) by simp
  have "get_by_id ?d' iid = map_option (\<lambda>r. if i_id r = iid then ?f r else r) (get_by_id d iid)"
    by (rule get_by_id_items_map) simp_all
  then have "get_by_id ?d' iid = Some (?f it)"
    using assms(1) get_by_id_key [OF assms(1)] by simp
  with res show ?thesis
    by (intro exI [of _ ?d'] exI [of _ ?entry]) simp
qed

theorem set_item_status_not_taken_witness:
  "get_by_id shop 3 = Some ladder \<and> MAINTENANCE \<noteq> TAKEN \<and>
   (\<exists>d' entry. set_item_status shop root 3 MAINTENANCE = (d', True)
      \<and> get_by_id d' 3 = Some (ladder\<lparr>status := MAINTENANCE, current_holder_id := None\<rparr>)
      \<and> transactions d' = transactions shop
      \<and> admin_logs d' = admin_logs shop @ [entry]
      \<and> admin_id entry = Some 3
      \<and> log_action entry = ''set_item_status'')"
proof -
  have h1: "get_by_id shop 3 = Some ladder"
    by (simp add: get_by_id_def)
  have h2: "MAINTENANCE \<noteq> TAKEN"
    by simp
  show ?thesis
    using h1 set_item_status_not_taken [OF h1 h2, of root]
    by simp
qed

section \<open>The holder invariant\<close>




section \<open>Agreement of the holder with the history\<close>




section \<open>Creating items and categories\<close>

text \<open>
  C8 on the code. \<^verbatim>\<open>Item.category_id\<close> is declared as a foreign key onto the categories,
  and neither \<^verbatim>\<open>AdminService.create_item\<close> nor \<^verbatim>\<open>ItemRepository.create\<close> looks the category
  up, so the declared key is all that could refuse a missing category. On the default
  store, opened without the pragma that makes SQLite enforce foreign keys, it refuses
  nothing: creating an item in the category 99, which does not exist, returns the new
  item, and the store holds it and the log entry.
\<close>

theorem create_item_missing_category_succeeds:
  "99 \<notin> set (map c_id (categories shop))
   \<and> create_item shop root 99 ''Hammer'' None
       = (shop\<lparr>items := items shop @
                  [\<lparr>i_id = 4, category_id = 99, name = ''Hammer'', inventory_code = None,
                    status = AVAILABLE, current_holder_id = None\<rparr>],
                admin_logs :=
                  [\<lparr>l_id = 1, admin_id = Some 3, log_action = ''create_item'',
                    details = Some ''category_id=99,name=Hammer''\<rparr>]\<rparr>,
          Inr \<lparr>i_id = 4, category_id = 99, name = ''Hammer'', inventory_code = None,
               status = AVAILABLE, current_holder_id = None\<rparr>)"
proof -
  have n: "str_int 99 = ''99''"
    by code_simp
  show ?thesis
    by (simp add: create_item_def flush_item_def log_def Let_def next_id_def n)
qed

section \<open>Identity bootstrap\<close>

text \<open>
  C10. For an account that exists (the one row with the given telegram id), \<open>ensure_user\<close>
  succeeds and stores the returned row in its place. Its administrator flag is the old
  flag or the allow-list match, so a set flag stays set whatever the allow-lists are. The
  match is written out: the telegram id is in the list of ids, or the username without
  its leading \<^verbatim>\<open>@\<close> characters and with every letter \<^verbatim>\<open>A\<close> to \<^verbatim>\<open>Z\<close> (codes 65 to 90) moved to
  its lower-case letter (32 higher), is not empty and is in the list of usernames. The
  username, first name and last name are the supplied ones.
\<close>

theorem ensure_user_existing:
  assumes "filter (\<lambda>u. telegram_id u = tg) (users d) = [usr]"
  shows "\<exists>d' usr'.
           ensure_user d tg un fn ln ids names = (d', Inr usr')
           \<and> users d' = map (\<lambda>u. if u_id u = u_id usr then usr' else u) (users d)
           \<and> is_admin usr'
               = (is_admin usr \<or> tg \<in> set ids
                  \<or> (map (\<lambda>c. if 65 \<le> (of_char c :: nat) \<and> (of_char c :: nat) \<le> 90
                                 then char_of ((of_char c :: nat) + 32) else c)
                         (dropWhile (\<lambda>c. c = CHR ''@'') (case un of None \<Rightarrow> [] | Some s \<Rightarrow> s))
                       \<noteq> []
                      \<and> map (\<lambda>c. if 65 \<le> (of_char c :: nat) \<and> (of_char c :: nat) \<le> 90
                                   then char_of ((of_char c :: nat) + 32) else c)
                           (dropWhile (\<lambda>c. c = CHR ''@'') (case un of None \<Rightarrow> [] | Some s \<Rightarrow> s))
                         \<in> set names))
           \<and> (is_admin usr \<longrightarrow> is_admin usr')
           \<and> username usr' = un \<and> first_name usr' = fn \<and> last_name usr' = ln
           \<and> u_id usr' = u_id usr \<and> telegram_id usr' = telegram_id usr"
proof -
  have "lower_char = (\<lambda>c. if 65 \<le> (of_char c :: nat) \<and> (of_char c :: nat) \<le> 90
                            then char_of ((of_char c :: nat) + 32) else c)"
    by (rule ext) (simp add: lower_char_def Let_def)
  then have norm: "lower (lstrip_at s)
      = map (\<lambda>c. if 65 \<le> (of_char c :: nat) \<and> (of_char c :: nat) \<le> 90
                    then char_of ((of_char c :: nat) + 32) else c)
          (dropWhile (\<lambda>c. c = CHR ''@'') s)" for s
    by (simp add: lower_def lstrip_at_def)
  show ?thesis
    using assms
    by (auto simp: ensure_user_def get_or_create_from_telegram_def make_admin_flag_def
        norm update_user_def Let_def)
qed

theorem ensure_user_existing_witness:
  "filter (\<lambda>u. telegram_id u = 1001) (users shop) = [alice]
   \<and> \<not> is_admin alice
   \<and> (\<exists>d' usr'.
         ensure_user shop 1001 (Some ''@Alice'') (Some ''Al'') None [] [''alice''] = (d', Inr usr')
         \<and> users d' = [usr', bob, root]
         \<and> is_admin usr'
         \<and> username usr' = Some ''@Alice'' \<and> first_name usr' = Some ''Al''
         \<and> last_name usr' = None \<and> u_id usr' = 1 \<and> telegram_id usr' = 1001)
   \<and> filter (\<lambda>u. telegram_id u = 1002) (users shop) = [bob]
   \<and> (\<exists>d' usr'.
         ensure_user shop 1002 (Some ''bob'') (Some ''Bob'') None [7] [''alice''] = (d', Inr usr')
         \<and> users d' = [alice, usr', root]
         \<and> \<not> is_admin usr'
         \<and> username usr' = Some ''bob'' \<and> first_name usr' = Some ''Bob''
         \<and> last_name usr' = None \<and> u_id usr' = 2 \<and> telegram_id usr' = 1002)
   \<and> filter (\<lambda>u. telegram_id u = 1003) (users shop) = [root]
   \<and> is_admin root
   \<and> (\<exists>d' usr'.
         ensure_user shop 1003 None (Some ''R.'') None [] [] = (d', Inr usr')
         \<and> users d' = [alice, bob, usr']
         \<and> is_admin usr'
         \<and> username usr' = None \<and> first_name usr' = Some ''R.''
         \<and> last_name usr' = None \<and> u_id usr' = 3 \<and> telegram_id usr' = 1003)"
proof -
  have h1: "filter (\<lambda>u. telegram_id u = 1001) (users shop) = [alice]"
    by simp
  have h2: "filter (\<lambda>u. telegram_id u = 1002) (users shop) = [bob]"
    by simp
  have h3: "filter (\<lambda>u. telegram_id u = 1003) (users shop) = [root]"
    by simp
  have n1: "map (\<lambda>c. if 65 \<le> (of_char c :: nat) \<and> (of_char c :: nat) \<le> 90
                      then char_of ((of_char c :: nat) + 32) else c)
              (dropWhile (\<lambda>c. c = CHR ''@'') (case Some ''@Alice'' of None \<Rightarrow> [] | Some s \<Rightarrow> s))
            = ''alice''"
    by code_simp
  have n2: "map (\<lambda>c. if 65 \<le> (of_char c :: nat) \<and> (of_char c :: nat) \<le> 90
                      then char_of ((of_char c :: nat) + 32) else c)
              (dropWhile (\<lambda>c. c = CHR ''@'') (case Some ''bob'' of None \<Rightarrow> [] | Some s \<Rightarrow> s))
            = ''bob''"
    by code_simp
  have r1: "\<exists>d' usr'.
         ensure_user shop 1001 (Some ''@Alice'') (Some ''Al'') None [] [''alice''] = (d', Inr usr')
         \<and> users d' = [usr', bob, root]
         \<and> is_admin usr'
         \<and> username usr' = Some ''@Alice'' \<and> first_name usr' = Some ''Al''
         \<and> last_name usr' = None \<and> u_id usr' = 1 \<and> telegram_id usr' = 1001"
    using ensure_user_existing [OF h1, of "Some ''@Alice''" "Some ''Al''" None "[]" "[''alice'']"]
    unfolding n1 by simp
  have r2: "\<exists>d' usr'.
         ensure_user shop 1002 (Some ''bob'') (Some ''Bob'') None [7] [''alice''] = (d', Inr usr')
         \<and> users d' = [alice, usr', root]
         \<and> \<not> is_admin usr'
         \<and> username usr' = Some ''bob'' \<and> first_name usr' = Some ''Bob''
         \<and> last_name usr' = None \<and> u_id usr' = 2 \<and> telegram_id usr' = 1002"
    using ensure_user_existing [OF h2, of "Some ''bob''" "Some ''Bob''" None "[7]" "[''alice'']"]
    unfolding n2 by simp
  have r3: "\<exists>d' usr'.
         ensure_user shop 1003 None (Some ''R.'') None [] [] = (d', Inr usr')
         \<and> users d' = [alice, bob, usr']
         \<and> is_admin usr'
         \<and> username usr' = None \<and> first_name usr' = Some ''R.''
         \<and> last_name usr' = None \<and> u_id usr' = 3 \<and> telegram_id usr' = 1003"
    using ensure_user_existing [OF h3, of None "Some ''R.''" None "[]" "[]"]
    by simp
  have a: "\<not> is_admin alice" and b: "is_admin root"
    by simp_all
  from h1 a r1 h2 r2 h3 b r3 show ?thesis
    by (intro conjI)
qed

section \<open>Two check-outs at once\<close>

text \<open>
  C9 on the code. One after the other, a second \<open>take_item\<close> of the drill is refused:
  it reads the status that the first one wrote. But the read and the write of
  \<open>take_item\<close> are separate steps with awaits between them, and alice's and bob's handlers
  can both read the available drill before either writes. Then both checks pass, both
  writes go through, and both calls return a \<^verbatim>\<open>TAKE\<close> transaction: the drill ends with bob
  as its holder and two check-outs in a row in its history, with no check-in between.
\<close>

theorem two_check_outs_both_succeed:
  "snd (take_item (fst (take_item shop 1 alice ''photo-a'' None)) 1 bob ''photo-b'' None)
     = Inl (ValueError ''Item is not available'')
   \<and> take_item_check shop 1 = Inr drill
   \<and> take_item_write shop drill alice ''photo-a'' None
       = (shop\<lparr>items := [drill\<lparr>status := TAKEN, current_holder_id := Some 1\<rparr>, saw, ladder],
                transactions := transactions shop @
                  [\<lparr>t_id = 2, item_id = 1, user_id = 1, action = TAKE,
                    photo_file_id = ''photo-a'', photo_url = None, comment = None\<rparr>]\<rparr>,
          \<lparr>t_id = 2, item_id = 1, user_id = 1, action = TAKE,
           photo_file_id = ''photo-a'', photo_url = None, comment = None\<rparr>)
   \<and> take_item_write (fst (take_item_write shop drill alice ''photo-a'' None))
         drill bob ''photo-b'' None
       = (shop\<lparr>items := [drill\<lparr>status := TAKEN, current_holder_id := Some 2\<rparr>, saw, ladder],
                transactions := transactions shop @
                  [\<lparr>t_id = 2, item_id = 1, user_id = 1, action = TAKE,
                    photo_file_id = ''photo-a'', photo_url = None, comment = None\<rparr>,
                   \<lparr>t_id = 3, item_id = 1, user_id = 2, action = TAKE,
                    photo_file_id = ''photo-b'', photo_url = None, comment = None\<rparr>]\<rparr>,
          \<lparr>t_id = 3, item_id = 1, user_id = 2, action = TAKE,
           photo_file_id = ''photo-b'', photo_url = None, comment = None\<rparr>)"
proof -
  have g0: "get_by_id shop 1 = Some drill"
    by (simp add: get_by_id_def)
  have s1: "take_item shop 1 alice ''photo-a'' None
       = (shop\<lparr>items := [drill\<lparr>status := TAKEN, current_holder_id := Some 1\<rparr>, saw, ladder],
                transactions := transactions shop @
                  [\<lparr>t_id = 2, item_id = 1, user_id = 1, action = TAKE,
                    photo_file_id = ''photo-a'', photo_url = None, comment = None\<rparr>]\<rparr>,
          Inr \<lparr>t_id = 2, item_id = 1, user_id = 1, action = TAKE,
               photo_file_id = ''photo-a'', photo_url = None, comment = None\<rparr>)"
    using take_item_ok [OF g0, of alice "''photo-a''" None] by (simp add: next_id_def)
  have seq: "snd (take_item (fst (take_item shop 1 alice ''photo-a'' None)) 1 bob
                    ''photo-b'' None)
      = Inl (ValueError ''Item is not available'')"
    unfolding s1 by (simp add: take_item_def get_by_id_def)
  have chk: "take_item_check shop 1 = Inr drill"
    by (simp add: take_item_check_def get_by_id_def)
  have w1: "take_item_write shop drill alice ''photo-a'' None
       = (shop\<lparr>items := [drill\<lparr>status := TAKEN, current_holder_id := Some 1\<rparr>, saw, ladder],
                transactions := transactions shop @
                  [\<lparr>t_id = 2, item_id = 1, user_id = 1, action = TAKE,
                    photo_file_id = ''photo-a'', photo_url = None, comment = None\<rparr>]\<rparr>,
          \<lparr>t_id = 2, item_id = 1, user_id = 1, action = TAKE,
           photo_file_id = ''photo-a'', photo_url = None, comment = None\<rparr>)"
    by (simp add: take_item_write_def update_item_def add_transaction_def Let_def next_id_def)
  have w2: "take_item_write (fst (take_item_write shop drill alice ''photo-a'' None))
         drill bob ''photo-b'' None
       = (shop\<lparr>items := [drill\<lparr>status := TAKEN, current_holder_id := Some 2\<rparr>, saw, ladder],
                transactions := transactions shop @
                  [\<lparr>t_id = 2, item_id = 1, user_id = 1, action = TAKE,
                    photo_file_id = ''photo-a'', photo_url = None, comment = None\<rparr>,
                   \<lparr>t_id = 3, item_id = 1, user_id = 2, action = TAKE,
                    photo_file_id = ''photo-b'', photo_url = None, comment = None\<rparr>]\<rparr>,
          \<lparr>t_id = 3, item_id = 1, user_id = 2, action = TAKE,
           photo_file_id = ''photo-b'', photo_url = None, comment = None\<rparr>)"
    unfolding w1
    by (simp add: take_item_write_def update_item_def add_transaction_def Let_def next_id_def)
  from seq chk w1 w2 show ?thesis
    by (intro conjI)
qed

end
